theory Spec2Isabelle
  imports Main "HOL-Library.Word"
begin

section \<open>Keyboard layout generator: data\<close>

text \<open>
  The script \<^verbatim>\<open>scripts/generate_keyboard_layout.py\<close> turns a keyboard layout (rows of
  keys) into a 26x26 matrix of distance classes and writes it to a 681-byte file.
  Keys are Python strings, positions are pairs of (unbounded) Python integers, the
  matrix is a list of lists of integers, and a file is a list of bytes.
\<close>

type_synonym byte = "8 word"
type_synonym layout_rows = "string list list"
type_synonym positions = "string \<rightharpoonup> int \<times> int"
type_synonym matrix = "int list list"

datatype py_error =
    OSError           \<comment> \<open>\<^verbatim>\<open>open\<close>, \<^verbatim>\<open>write\<close> or \<^verbatim>\<open>os.makedirs\<close> failed\<close>
  | ValueError        \<comment> \<open>\<^verbatim>\<open>bytes(row)\<close> on a value outside 0..255\<close>
  | StructError       \<comment> \<open>\<^verbatim>\<open>struct.pack('B', v)\<close> on a value outside 0..255\<close>
  | KeyError          \<comment> \<open>\<^verbatim>\<open>LAYOUTS[name]\<close> on a missing name\<close>
  | SystemExit int    \<comment> \<open>\<^verbatim>\<open>parser.error\<close> of argparse exits with status 2\<close>

definition MAGIC :: "byte list" where
  "MAGIC = map of_char ''KYBD''"

definition VERSION :: int where
  "VERSION = 1"

text \<open>\<^verbatim>\<open>list("qwertyuiop")\<close>: the one-character strings of a string.\<close>

definition list_str :: "string \<Rightarrow> string list" where
  "list_str s = map (\<lambda>c. [c]) s"

definition QWERTY_ROWS :: layout_rows where
  "QWERTY_ROWS = [list_str ''qwertyuiop'', list_str ''asdfghjkl'', list_str ''zxcvbnm'']"

definition AZERTY_ROWS :: layout_rows where
  "AZERTY_ROWS = [list_str ''azertyuiop'', list_str ''qsdfghjklm'', list_str ''wxcvbn'']"

definition QWERTZ_ROWS :: layout_rows where
  "QWERTZ_ROWS = [list_str ''qwertzuiop'', list_str ''asdfghjkl'', list_str ''yxcvbnm'']"

definition DVORAK_ROWS :: layout_rows where
  "DVORAK_ROWS = [list_str ''pyfgcrl'', list_str ''aoeuidhtns'', list_str ''qjkxbmwvz'']"

definition COLEMAK_ROWS :: layout_rows where
  "COLEMAK_ROWS = [list_str ''qwfpgjluy'', list_str ''arstdhneio'', list_str ''zxcvbkm'']"

text \<open>The dict \<^verbatim>\<open>LAYOUTS\<close>, in insertion order (the order of \<^verbatim>\<open>LAYOUTS.keys()\<close>).\<close>

definition LAYOUTS :: "(string \<times> layout_rows) list" where
  "LAYOUTS =
    [(''qwerty'', QWERTY_ROWS), (''azerty'', AZERTY_ROWS), (''qwertz'', QWERTZ_ROWS),
     (''dvorak'', DVORAK_ROWS), (''colemak'', COLEMAK_ROWS)]"

section \<open>Key positions\<close>

definition row_offsets :: "int list" where
  "row_offsets = [0, 1, 3]"

text \<open>
  The inner loop of \<^verbatim>\<open>get_key_positions\<close>: every key of the row is stored under its
  coordinate; a key already present is overwritten.
\<close>

definition row_positions :: "nat \<Rightarrow> string list \<Rightarrow> positions \<Rightarrow> positions" where
  "row_positions row_idx row positions =
    (let offset = (if row_idx < length row_offsets then row_offsets ! row_idx
                   else int row_idx * 2)
     in fold (\<lambda>(col_idx, key) positions.
                positions(key \<mapsto> (int row_idx * 2, int col_idx * 2 + offset)))
          (enumerate 0 row) positions)"

definition get_key_positions :: "layout_rows \<Rightarrow> positions" where
  "get_key_positions rows =
    fold (\<lambda>(row_idx, row) positions. row_positions row_idx row positions)
      (enumerate 0 rows) Map.empty"

section \<open>Distance matrix\<close>

text \<open>\<^verbatim>\<open>chr(ord('a') + i)\<close>, a one-character string.\<close>

definition chr_a :: "nat \<Rightarrow> string" where
  "chr_a i = [char_of (of_char CHR ''a'' + i)]"

text \<open>
  \<^verbatim>\<open>matrix[i][j] = v\<close>. The matrix is 26x26 and both indices come from
  \<^verbatim>\<open>range(26)\<close>, so the assignment is always in range.
\<close>

definition set_cell :: "matrix \<Rightarrow> nat \<Rightarrow> nat \<Rightarrow> int \<Rightarrow> matrix" where
  "set_cell matrix i j v = matrix[i := (matrix ! i)[j := v]]"

text \<open>The body of the inner loop of \<^verbatim>\<open>compute_distance_matrix\<close>.\<close>

definition fill_cell :: "positions \<Rightarrow> nat \<Rightarrow> nat \<Rightarrow> matrix \<Rightarrow> matrix" where
  "fill_cell positions i j matrix =
    (let char_i = chr_a i; char_j = chr_a j
     in if i = j then set_cell matrix i j 0
        else (case (positions char_i, positions char_j) of
                (Some pos_i, Some pos_j) \<Rightarrow>
                  (let row_diff = \<bar>fst pos_i - fst pos_j\<bar>;
                       col_diff = \<bar>snd pos_i - snd pos_j\<bar>;
                       chebyshev = max row_diff col_diff
                   in if chebyshev \<le> 2 then set_cell matrix i j 1
                      else if chebyshev \<le> 4 then set_cell matrix i j 2
                      else set_cell matrix i j 255)
              | _ \<Rightarrow> matrix))"

definition compute_distance_matrix :: "layout_rows \<Rightarrow> matrix" where
  "compute_distance_matrix rows =
    (let positions = get_key_positions rows;
         matrix = replicate 26 (replicate 26 255)
     in fold (\<lambda>i matrix. fold (\<lambda>j matrix. fill_cell positions i j matrix) [0..<26] matrix)
          [0..<26] matrix)"

text \<open>
  The classification rule in the words of the specification, for a pair of letter
  indices and a position mapping.
\<close>

definition stagger :: "nat \<Rightarrow> int" where
  "stagger r = (if r = 0 then 0 else if r = 1 then 1 else if r = 2 then 3 else 2 * int r)"

definition distance_class :: "positions \<Rightarrow> nat \<Rightarrow> nat \<Rightarrow> int" where
  "distance_class positions i j =
    (if i = j then 0
     else (case positions (chr_a i) of
             None \<Rightarrow> 255
           | Some (row_i, col_i) \<Rightarrow>
               (case positions (chr_a j) of
                  None \<Rightarrow> 255
                | Some (row_j, col_j) \<Rightarrow>
                    (let row_diff = \<bar>row_i - row_j\<bar>;
                         col_diff = \<bar>col_i - col_j\<bar>;
                         cheb = max row_diff col_diff
                     in if cheb \<le> 2 then 1 else if cheb \<le> 4 then 2 else 255))))"

section \<open>Writing the layout file\<close>

text \<open>
  The file system is a map from paths to file contents. What the operating system may
  refuse is a parameter of the model: whether a directory can be created, whether a
  path can be opened for writing, how many bytes a file accepts before a write fails
  (\<open>None\<close>: no limit), and whether standard output can be written (when it cannot,
  \<^verbatim>\<open>print\<close> raises OSError).
\<close>

type_synonym filesystem = "string \<rightharpoonup> byte list"

record io_env =
  makedirs_ok :: "string \<Rightarrow> bool"
  open_ok :: "string \<Rightarrow> bool"
  write_limit :: "string \<Rightarrow> nat option"
  stdout_ok :: bool

text \<open>A call of \<^verbatim>\<open>print\<close>, or several calls in a row.\<close>

definition print_out :: "io_env \<Rightarrow> py_error option" where
  "print_out env = (if stdout_ok env then None else Some OSError)"

text \<open>\<^verbatim>\<open>os.path.getsize(path)\<close> raises OSError when there is no file at the path.\<close>

definition getsize :: "filesystem \<Rightarrow> string \<Rightarrow> py_error + nat" where
  "getsize fs path = (case fs path of None \<Rightarrow> Inl OSError | Some bs \<Rightarrow> Inr (length bs))"

text \<open>\<^verbatim>\<open>bytes(row)\<close> raises ValueError unless every value is in 0..255.\<close>

definition bytes :: "int list \<Rightarrow> py_error + byte list" where
  "bytes row =
    (if list_all (\<lambda>v. 0 \<le> v \<and> v \<le> 255) row then Inr (map word_of_int row) else Inl ValueError)"

text \<open>\<^verbatim>\<open>struct.pack('B', v)\<close>: one unsigned byte.\<close>

definition pack_B :: "int \<Rightarrow> py_error + byte list" where
  "pack_B v = (if 0 \<le> v \<and> v \<le> 255 then Inr [word_of_int v] else Inl StructError)"

text \<open>
  \<^verbatim>\<open>open(output_path, 'wb')\<close> creates the file or truncates it to length 0, at the
  destination path itself.
\<close>

definition open_wb :: "io_env \<Rightarrow> string \<Rightarrow> filesystem \<Rightarrow> py_error option \<times> filesystem" where
  "open_wb env path fs =
    (if open_ok env path then (None, fs(path \<mapsto> [])) else (Some OSError, fs))"

text \<open>
  \<^verbatim>\<open>f.write(chunk)\<close> appends to the file. When the file cannot take the whole chunk the
  part that fits is kept and the write fails. (Python buffers the writes and flushes
  them when the \<^verbatim>\<open>with\<close> block is left, also on an exception; the contents of the
  file once \<^verbatim>\<open>write_layout_file\<close> has returned or raised are the same.)
\<close>

definition f_write :: "io_env \<Rightarrow> string \<Rightarrow> byte list \<Rightarrow> filesystem \<Rightarrow> py_error option \<times> filesystem" where
  "f_write env path chunk fs =
    (let cur = (case fs path of None \<Rightarrow> [] | Some bs \<Rightarrow> bs)
     in case write_limit env path of
          None \<Rightarrow> (None, fs(path \<mapsto> cur @ chunk))
        | Some n \<Rightarrow>
            if length cur + length chunk \<le> n then (None, fs(path \<mapsto> cur @ chunk))
            else (Some OSError, fs(path \<mapsto> cur @ take (n - length cur) chunk)))"

text \<open>\<^verbatim>\<open>for row in matrix: f.write(bytes(row))\<close>\<close>

fun write_rows :: "io_env \<Rightarrow> string \<Rightarrow> matrix \<Rightarrow> filesystem \<Rightarrow> py_error option \<times> filesystem" where
  "write_rows env path [] fs = (None, fs)"
| "write_rows env path (row # rest) fs =
    (case bytes row of
       Inl e \<Rightarrow> (Some e, fs)
     | Inr bs \<Rightarrow>
         (case f_write env path bs fs of
            (Some e, fs') \<Rightarrow> (Some e, fs')
          | (None, fs') \<Rightarrow> write_rows env path rest fs'))"

text \<open>The \<^verbatim>\<open>with open(...)\<close> block of \<^verbatim>\<open>write_layout_file\<close>, for a given matrix.\<close>

definition write_matrix :: "io_env \<Rightarrow> string \<Rightarrow> matrix \<Rightarrow> filesystem \<Rightarrow> py_error option \<times> filesystem" where
  "write_matrix env output_path matrix fs =
    (case open_wb env output_path fs of
       (Some e, fs0) \<Rightarrow> (Some e, fs0)
     | (None, fs0) \<Rightarrow>
         (case f_write env output_path MAGIC fs0 of
            (Some e, fs1) \<Rightarrow> (Some e, fs1)
          | (None, fs1) \<Rightarrow>
              (case pack_B VERSION of
                 Inl e \<Rightarrow> (Some e, fs1)
               | Inr v \<Rightarrow>
                   (case f_write env output_path v fs1 of
                      (Some e, fs2) \<Rightarrow> (Some e, fs2)
                    | (None, fs2) \<Rightarrow> write_rows env output_path matrix fs2))))"

text \<open>
  \<^verbatim>\<open>write_layout_file\<close>: the matrix is computed, the file is written, and once the
  \<^verbatim>\<open>with\<close> block is left the size of the file is read back and printed.
\<close>

definition write_layout_file :: "io_env \<Rightarrow> string \<Rightarrow> layout_rows \<Rightarrow> filesystem \<Rightarrow> py_error option \<times> filesystem" where
  "write_layout_file env output_path rows fs =
    (let matrix = compute_distance_matrix rows
     in case write_matrix env output_path matrix fs of
          (Some e, fs') \<Rightarrow> (Some e, fs')
        | (None, fs') \<Rightarrow>
            (case getsize fs' output_path of
               Inl e \<Rightarrow> (Some e, fs')
             | Inr nbytes \<Rightarrow> (print_out env, fs')))"

text \<open>The bytes of a complete layout file for a matrix of byte values.\<close>

definition file_bytes :: "matrix \<Rightarrow> byte list" where
  "file_bytes matrix = MAGIC @ [word_of_int VERSION] @ concat (map (map word_of_int) matrix)"

section \<open>The command line driver\<close>

text \<open>
  \<^verbatim>\<open>--layout\<close> is declared with \<^verbatim>\<open>choices=list(LAYOUTS.keys()) + ["all"]\<close> and
  \<^verbatim>\<open>default="all"\<close>. argparse checks every occurrence of the option against the choices
  as it reads it and exits with status 2 at the first value that is not one of them;
  of several valid occurrences the last one is stored.
\<close>

definition choices :: "string list" where
  "choices = map fst LAYOUTS @ [''all'']"

definition parse_layout :: "string list \<Rightarrow> py_error + string" where
  "parse_layout vals =
    (if list_ex (\<lambda>v. v \<notin> set choices) vals then Inl (SystemExit 2)
     else Inr (if vals = [] then ''all'' else last vals))"

text \<open>\<^verbatim>\<open>os.path.join(a, b)\<close> for a second component that does not start with a slash.\<close>

definition path_join :: "string \<Rightarrow> string \<Rightarrow> string" where
  "path_join a b = (if a = [] then b else if last a = CHR ''/'' then a @ b else a @ ''/'' @ b)"

definition layout_path :: "string \<Rightarrow> string \<Rightarrow> string" where
  "layout_path output layout_name = path_join output (''keyboard_'' @ layout_name @ ''.bin'')"

text \<open>
  \<^verbatim>\<open>print_adjacency_info\<close> derives the neighbours of every letter from the distance
  matrix, which cannot fail, and prints a heading and one line per letter.
\<close>

definition print_adjacency_info :: "io_env \<Rightarrow> string \<Rightarrow> layout_rows \<Rightarrow> py_error option" where
  "print_adjacency_info env layout_name rows = print_out env"

text \<open>
  The loop of \<^verbatim>\<open>main\<close> over \<^verbatim>\<open>layouts_to_generate\<close>: look the rows up, print the
  name, write the file and, in verbose mode, print the adjacency listing. An exception
  leaves the loop: the layouts after it are not generated.
\<close>

fun generate :: "io_env \<Rightarrow> string \<Rightarrow> bool \<Rightarrow> string list \<Rightarrow> filesystem \<Rightarrow> py_error option \<times> filesystem" where
  "generate env output verbose [] fs = (None, fs)"
| "generate env output verbose (layout_name # rest) fs =
    (case map_of LAYOUTS layout_name of
       None \<Rightarrow> (Some KeyError, fs)
     | Some rows \<Rightarrow>
         (case print_out env of
            Some e \<Rightarrow> (Some e, fs)
          | None \<Rightarrow>
              (case write_layout_file env (layout_path output layout_name) rows fs of
                 (Some e, fs') \<Rightarrow> (Some e, fs')
               | (None, fs') \<Rightarrow>
                   (case (if verbose then print_adjacency_info env layout_name rows else None) of
                      Some e \<Rightarrow> (Some e, fs')
                    | None \<Rightarrow> generate env output verbose rest fs'))))"

text \<open>
  \<^verbatim>\<open>main\<close>, given the values of the \<^verbatim>\<open>--layout\<close> occurrences on the command line, of
  \<^verbatim>\<open>--output\<close> and of \<^verbatim>\<open>--verbose\<close>: the arguments are parsed, the output directory is
  created, three lines are printed, the layouts are generated and the closing lines
  are printed. It returns nothing; the result is the exception that ended it, if any,
  and the file system it leaves.
\<close>

definition main :: "io_env \<Rightarrow> string list \<Rightarrow> string \<Rightarrow> bool \<Rightarrow> filesystem \<Rightarrow> py_error option \<times> filesystem" where
  "main env layout_args output verbose fs =
    (case parse_layout layout_args of
       Inl e \<Rightarrow> (Some e, fs)
     | Inr layout \<Rightarrow>
         if \<not> makedirs_ok env output then (Some OSError, fs)
         else (let layouts_to_generate = (if layout = ''all'' then map fst LAYOUTS else [layout])
               in case print_out env of
                    Some e \<Rightarrow> (Some e, fs)
                  | None \<Rightarrow>
                      (case generate env output verbose layouts_to_generate fs of
                         (Some e, fs') \<Rightarrow> (Some e, fs')
                       | (None, fs') \<Rightarrow> (print_out env, fs'))))"

section \<open>Reading a layout file\<close>

datatype decode_error = MalformedFile | TruncatedFile

text \<open>The first \<open>n\<close> rows of \<open>w\<close> elements of a sequence.\<close>

fun chunks :: "nat \<Rightarrow> nat \<Rightarrow> 'a list \<Rightarrow> 'a list list" where
  "chunks 0 w xs = []"
| "chunks (Suc n) w xs = take w xs # chunks n w (drop w xs)"

text \<open>
  Modelled from the spec: the header of a byte sequence is right when its magic tag and
  its version byte match (section 4.3); a sequence too short to hold them does not
  match.
\<close>

definition header_ok :: "byte list \<Rightarrow> bool" where
  "header_ok bs \<longleftrightarrow> take 4 bs = MAGIC \<and> take 1 (drop 4 bs) = [word_of_int VERSION]"

text \<open>
  Modelled from the spec: the decode operation of the matrix serializer. The reader of
  the layout files belongs to the spell-correction engine and is not among the Python
  sources. The specification gives the outcomes of decoding without an order of the
  checks: it fails as truncated when fewer than 681 bytes are available, it fails as
  of unrecognized format when the magic tag or the version byte mismatches, and
  otherwise it yields the payload, 26 rows of 26 bytes. So the model is the relation
  between a byte sequence and the outcomes the specification allows; on a sequence
  that is both short and wrongly tagged either failure is allowed.
\<close>

inductive decodes :: "byte list \<Rightarrow> decode_error + byte list list \<Rightarrow> bool" where
  truncated: "length bs < 681 \<Longrightarrow> decodes bs (Inl TruncatedFile)"
| malformed: "\<not> header_ok bs \<Longrightarrow> decodes bs (Inl MalformedFile)"
| payload: "681 \<le> length bs \<Longrightarrow> header_ok bs \<Longrightarrow> decodes bs (Inr (chunks 26 26 (drop 5 bs)))"

code_pred decodes .

section \<open>Loop invariant of the matrix computation\<close>

text \<open>
  After the cells in \<open>D\<close> have been visited the matrix is 26x26, holds the distance
  class in the visited cells and the initial 255 elsewhere.
\<close>

definition filled :: "positions \<Rightarrow> (nat \<times> nat) set \<Rightarrow> matrix \<Rightarrow> bool" where
  "filled pos D m \<longleftrightarrow>
     length m = 26 \<and> (\<forall>r < 26. length (m ! r) = 26) \<and>
     (\<forall>r < 26. \<forall>c < 26. m ! r ! c = (if (r, c) \<in> D then distance_class pos r c else 255))"

section \<open>Notions used in the statements\<close>

text \<open>A layout that has every letter a..z as a key, exactly once.\<close>

definition full_layout :: "layout_rows \<Rightarrow> bool" where
  "full_layout rows \<longleftrightarrow>
     distinct (concat rows) \<and> set (concat rows) = set (list_str ''abcdefghijklmnopqrstuvwxyz'')"

text \<open>
  What a file that accepts at most \<open>write_limit\<close> bytes keeps of a byte sequence, and
  whether it takes all of it.
\<close>

definition accepted :: "io_env \<Rightarrow> string \<Rightarrow> byte list \<Rightarrow> byte list" where
  "accepted env path bs = (case write_limit env path of None \<Rightarrow> bs | Some n \<Rightarrow> take n bs)"

definition fits :: "io_env \<Rightarrow> string \<Rightarrow> byte list \<Rightarrow> bool" where
  "fits env path bs = (case write_limit env path of None \<Rightarrow> True | Some n \<Rightarrow> length bs \<le> n)"

text \<open>
  The rows of a matrix as bytes, and the condition under which \<^verbatim>\<open>bytes(row)\<close> succeeds
  on every row.
\<close>

definition byte_rows :: "matrix \<Rightarrow> byte list list" where
  "byte_rows matrix = map (map word_of_int) matrix"

definition valid_rows :: "matrix \<Rightarrow> bool" where
  "valid_rows matrix = list_all (list_all (\<lambda>v. 0 \<le> v \<and> v \<le> 255)) matrix"

text \<open>
  Four environments: one that refuses nothing, one in which every file accepts at most
  \<open>n\<close> bytes, one in which no file can be opened, and one in which standard output
  cannot be written. The empty file system.
\<close>

definition env_ok :: io_env where
  "env_ok = \<lparr>makedirs_ok = (\<lambda>_. True), open_ok = (\<lambda>_. True), write_limit = (\<lambda>_. None),
     stdout_ok = True\<rparr>"

definition env_limit :: "nat \<Rightarrow> io_env" where
  "env_limit n = \<lparr>makedirs_ok = (\<lambda>_. True), open_ok = (\<lambda>_. True), write_limit = (\<lambda>_. Some n),
     stdout_ok = True\<rparr>"

definition env_closed :: io_env where
  "env_closed = \<lparr>makedirs_ok = (\<lambda>_. True), open_ok = (\<lambda>_. False), write_limit = (\<lambda>_. None),
     stdout_ok = True\<rparr>"

definition env_no_stdout :: io_env where
  "env_no_stdout = \<lparr>makedirs_ok = (\<lambda>_. True), open_ok = (\<lambda>_. True), write_limit = (\<lambda>_. None),
     stdout_ok = False\<rparr>"

definition no_files :: filesystem where
  "no_files = Map.empty"

text \<open>
  A complete matrix of byte values: 26 rows of 26 integers in 0..255.
\<close>

definition is_matrix :: "matrix \<Rightarrow> bool" where
  "is_matrix matrix \<longleftrightarrow>
     length matrix = 26 \<and>
     list_all (\<lambda>row. length row = 26 \<and> list_all (\<lambda>v. 0 \<le> v \<and> v \<le> 255) row) matrix"

text \<open>
  The layout that a valid command line requests, the registry entries it selects, and
  the file system after the file of each selected entry has been written in order.
\<close>

definition requested :: "string list \<Rightarrow> string" where
  "requested layout_args = (if layout_args = [] then ''all'' else last layout_args)"

definition selected :: "string \<Rightarrow> (string \<times> layout_rows) list" where
  "selected layout =
    (if layout = ''all'' then LAYOUTS else filter (\<lambda>(name, rows). name = layout) LAYOUTS)"

definition written :: "string \<Rightarrow> (string \<times> layout_rows) list \<Rightarrow> filesystem \<Rightarrow> filesystem" where
  "written output entries fs =
    fold (\<lambda>(name, rows) fs.
            fs(layout_path output name \<mapsto> file_bytes (compute_distance_matrix rows)))
      entries fs"

section \<open>Properties of the position model\<close>

lemma offset_stagger:
  "(if r < length row_offsets then row_offsets ! r else int r * 2) = stagger r"
proof -
  consider "r = 0" | "r = 1" | "r = 2" | "2 < r" by linarith
  then show ?thesis
    by cases (simp_all add: row_offsets_def stagger_def)
qed

lemma fold_store_other:
  "k \<notin> set row \<Longrightarrow>
   fold (\<lambda>(c, key) p. p(key \<mapsto> f c)) (enumerate n row) p k = p k"
  by (induction row arbitrary: n p) auto

lemma fold_store_nth:
  "distinct row \<Longrightarrow> c < length row \<Longrightarrow>
   fold (\<lambda>(c, key) p. p(key \<mapsto> f c)) (enumerate n row) p (row ! c) = Some (f (n + c))"
proof (induction row arbitrary: n p c)
  case Nil
  then show ?case by simp
next
  case (Cons x xs)
  show ?case
  proof (cases c)
    case 0
    from Cons.prems have "x \<notin> set xs" by simp
    then have "fold (\<lambda>(c, key) p. p(key \<mapsto> f c)) (enumerate (Suc n) xs) (p(x \<mapsto> f n)) x
        = (p(x \<mapsto> f n)) x"
      by (rule fold_store_other)
    with 0 show ?thesis by (simp del: fun_upd_apply add: fun_upd_same)
  next
    case (Suc c')
    with Cons.prems Cons.IH [of c' "Suc n"] show ?thesis by simp
  qed
qed

lemma row_positions_other:
  "k \<notin> set row \<Longrightarrow> row_positions r row p k = p k"
  unfolding row_positions_def Let_def by (rule fold_store_other)

lemma row_positions_nth:
  assumes "distinct row" and "c < length row"
  shows "row_positions r row p (row ! c) = Some (2 * int r, 2 * int c + stagger r)"
proof -
  have "row_positions r row p (row ! c)
      = fold (\<lambda>(c, key) p. p(key \<mapsto> (int r * 2, int c * 2 + stagger r))) (enumerate 0 row) p (row ! c)"
    unfolding row_positions_def Let_def offset_stagger ..
  also have "\<dots> = Some (int r * 2, int (0 + c) * 2 + stagger r)"
    using assms by (rule fold_store_nth)
  finally show ?thesis by (simp add: mult.commute)
qed

lemma rows_fold_other:
  "k \<notin> set (concat rows) \<Longrightarrow>
   fold (\<lambda>(r, row) p. row_positions r row p) (enumerate n rows) p k = p k"
  by (induction rows arbitrary: n p) (auto simp: row_positions_other)

lemma rows_fold_nth:
  "distinct (concat rows) \<Longrightarrow> r < length rows \<Longrightarrow> c < length (rows ! r) \<Longrightarrow>
   fold (\<lambda>(r, row) p. row_positions r row p) (enumerate n rows) p (rows ! r ! c)
     = Some (2 * int (n + r), 2 * int c + stagger (n + r))"
proof (induction rows arbitrary: n p r)
  case Nil
  then show ?case by simp
next
  case (Cons row rows)
  show ?case
  proof (cases r)
    case 0
    with Cons.prems have d: "distinct row" and c: "c < length row"
      and i: "set row \<inter> set (concat rows) = {}"
      by simp_all
    from c have "row ! c \<in> set row" by (rule nth_mem)
    with i have "row ! c \<notin> set (concat rows)" by blast
    then have "fold (\<lambda>(r, row) p. row_positions r row p) (enumerate (Suc n) rows)
        (row_positions n row p) (row ! c) = row_positions n row p (row ! c)"
      by (rule rows_fold_other)
    with 0 d c show ?thesis
      by (simp add: row_positions_nth)
  next
    case (Suc r')
    with Cons.prems Cons.IH [of r' "Suc n"] show ?thesis by simp
  qed
qed

lemma positions_absent:
  "key \<notin> set (concat rows) \<Longrightarrow> get_key_positions rows key = None"
  unfolding get_key_positions_def by (simp add: rows_fold_other)

lemma positions_present:
  "distinct (concat rows) \<Longrightarrow> r < length rows \<Longrightarrow> c < length (rows ! r) \<Longrightarrow>
   get_key_positions rows (rows ! r ! c) = Some (2 * int r, 2 * int c + stagger r)"
  unfolding get_key_positions_def using rows_fold_nth [of rows r c 0] by simp

lemma fold_store_dom:
  "dom (fold (\<lambda>(c, key) p. p(key \<mapsto> f c)) (enumerate n row) p) = dom p \<union> set row"
  by (induction row arbitrary: n p) auto

lemma row_positions_dom: "dom (row_positions r row p) = dom p \<union> set row"
  unfolding row_positions_def Let_def by (rule fold_store_dom)

lemma rows_fold_dom:
  "dom (fold (\<lambda>(r, row) p. row_positions r row p) (enumerate n rows) p)
     = dom p \<union> set (concat rows)"
  by (induction rows arbitrary: n p) (auto simp: row_positions_dom)

lemma positions_dom: "dom (get_key_positions rows) = set (concat rows)"
  unfolding get_key_positions_def by (simp add: rows_fold_dom)

text \<open>
  Claim C2. In a layout whose keys are pairwise distinct, the key at row index \<open>r\<close> and
  column index \<open>c\<close> is mapped to \<open>(2r, 2c + stagger r)\<close>, where the stagger is 0, 1, 3
  for the rows 0, 1, 2 and \<open>2r\<close> for every later row; a key that does not occur in the
  layout is absent from the mapping.
\<close>

theorem key_positions_model:
  "(distinct (concat rows) \<longrightarrow>
      (\<forall>r < length rows. \<forall>c < length (rows ! r).
         get_key_positions rows (rows ! r ! c) = Some (2 * int r, 2 * int c + stagger r)))
   \<and> (\<forall>key. key \<notin> set (concat rows) \<longrightarrow> get_key_positions rows key = None)
   \<and> stagger 0 = 0 \<and> stagger 1 = 1 \<and> stagger 2 = 3 \<and> (\<forall>r > 2. stagger r = 2 * int r)"
  by (simp add: positions_present positions_absent stagger_def)

theorem key_positions_model_witness:
  "distinct (concat QWERTY_ROWS) \<and> get_key_positions QWERTY_ROWS ''s'' = Some (2, 3)
   \<and> get_key_positions QWERTY_ROWS ''1'' = None \<and> stagger 5 = 10"
proof -
  have d: "distinct (concat QWERTY_ROWS)"
    by (simp add: QWERTY_ROWS_def list_str_def)
  have n: "''1'' \<notin> set (concat QWERTY_ROWS)"
    by (simp add: QWERTY_ROWS_def list_str_def)
  have s: "QWERTY_ROWS ! 1 ! 1 = ''s''"
    by (simp add: QWERTY_ROWS_def list_str_def)
  have l: "(1::nat) < length QWERTY_ROWS" "(1::nat) < length (QWERTY_ROWS ! 1)"
    by (simp_all add: QWERTY_ROWS_def list_str_def)
  from key_positions_model [of QWERTY_ROWS] d
  have p: "\<forall>r < length QWERTY_ROWS. \<forall>c < length (QWERTY_ROWS ! r).
         get_key_positions QWERTY_ROWS (QWERTY_ROWS ! r ! c) = Some (2 * int r, 2 * int c + stagger r)"
    and a: "\<forall>key. key \<notin> set (concat QWERTY_ROWS) \<longrightarrow> get_key_positions QWERTY_ROWS key = None"
    and g: "\<forall>r > 2. stagger r = 2 * int r"
    by blast+
  from p l have "get_key_positions QWERTY_ROWS (QWERTY_ROWS ! 1 ! 1) = Some (2 * int 1, 2 * int 1 + stagger 1)"
    by blast
  with key_positions_model [of QWERTY_ROWS] s
  have "get_key_positions QWERTY_ROWS ''s'' = Some (2, 3)" by simp
  moreover from a n have "get_key_positions QWERTY_ROWS ''1'' = None" by blast
  moreover from g have "stagger 5 = 10" by simp
  ultimately show ?thesis using d by simp
qed

section \<open>Properties of the distance matrix\<close>

lemma set_cell_nth:
  "i < length m \<Longrightarrow> j < length (m ! i) \<Longrightarrow>
   set_cell m i j v ! r ! c = (if r = i \<and> c = j then v else m ! r ! c)"
  by (simp add: set_cell_def nth_list_update)

lemma set_cell_length: "length (set_cell m i j v) = length m"
  by (simp add: set_cell_def)

lemma set_cell_row_length:
  "r < length m \<Longrightarrow> length (set_cell m i j v ! r) = length (m ! r)"
  by (cases "r = i") (simp_all add: set_cell_def)

lemma fill_cell_cases:
  "fill_cell pos i j m = set_cell m i j (distance_class pos i j)
   \<or> (fill_cell pos i j m = m \<and> distance_class pos i j = 255)"
  by (auto simp: fill_cell_def distance_class_def Let_def split: option.splits)

lemma filled_set_cell:
  assumes "filled pos D m" and "i < 26" and "j < 26"
  shows "filled pos (insert (i, j) D) (set_cell m i j (distance_class pos i j))"
proof -
  from assms have len: "i < length m" "j < length (m ! i)"
    by (simp_all add: filled_def)
  show ?thesis
    unfolding filled_def
  proof (intro conjI allI impI)
    show "length (set_cell m i j (distance_class pos i j)) = 26"
      using assms(1) by (simp add: set_cell_length filled_def)
  next
    fix r :: nat assume "r < 26"
    with assms(1) show "length (set_cell m i j (distance_class pos i j) ! r) = 26"
      by (simp add: set_cell_row_length filled_def)
  next
    fix r c :: nat assume "r < 26" "c < 26"
    with assms(1) have "m ! r ! c = (if (r, c) \<in> D then distance_class pos r c else 255)"
      by (simp add: filled_def)
    then show "set_cell m i j (distance_class pos i j) ! r ! c =
        (if (r, c) \<in> insert (i, j) D then distance_class pos r c else 255)"
      using len by (auto simp: set_cell_nth)
  qed
qed

lemma filled_keep:
  assumes "filled pos D m" and "i < 26" and "j < 26" and "distance_class pos i j = 255"
  shows "filled pos (insert (i, j) D) m"
  using assms unfolding filled_def by auto

lemma filled_fill_cell:
  assumes "filled pos D m" and "i < 26" and "j < 26"
  shows "filled pos (insert (i, j) D) (fill_cell pos i j m)"
  using fill_cell_cases [of pos i j m] filled_set_cell [OF assms] filled_keep [OF assms]
  by auto

lemma filled_inner:
  "filled pos D m \<Longrightarrow> i < 26 \<Longrightarrow> \<forall>j \<in> set js. j < 26 \<Longrightarrow>
   filled pos (D \<union> {i} \<times> set js) (fold (\<lambda>j matrix. fill_cell pos i j matrix) js m)"
proof (induction js arbitrary: D m)
  case Nil
  then show ?case by simp
next
  case (Cons j js)
  from Cons.prems have "filled pos (insert (i, j) D) (fill_cell pos i j m)"
    by (simp add: filled_fill_cell)
  with Cons.prems Cons.IH [of "insert (i, j) D" "fill_cell pos i j m"]
  have "filled pos (insert (i, j) D \<union> {i} \<times> set js)
          (fold (\<lambda>j matrix. fill_cell pos i j matrix) js (fill_cell pos i j m))"
    by simp
  moreover have "insert (i, j) D \<union> {i} \<times> set js = D \<union> {i} \<times> set (j # js)"
    by auto
  ultimately show ?case by simp
qed

lemma filled_outer:
  "filled pos D m \<Longrightarrow> \<forall>i \<in> set is. i < 26 \<Longrightarrow>
   filled pos (D \<union> set is \<times> {..<26})
     (fold (\<lambda>i matrix. fold (\<lambda>j matrix. fill_cell pos i j matrix) [0..<26] matrix) is m)"
proof (induction "is" arbitrary: D m)
  case Nil
  then show ?case by simp
next
  case (Cons i "is")
  let ?m = "fold (\<lambda>j matrix. fill_cell pos i j matrix) [0..<26] m"
  from Cons.prems filled_inner [of pos D m i "[0..<26]"]
  have "filled pos (D \<union> {i} \<times> {..<26}) ?m"
    by (simp add: lessThan_atLeast0)
  with Cons.prems Cons.IH [of "D \<union> {i} \<times> {..<26}" ?m]
  have "filled pos (D \<union> {i} \<times> {..<26} \<union> set is \<times> {..<26})
          (fold (\<lambda>i matrix. fold (\<lambda>j matrix. fill_cell pos i j matrix) [0..<26] matrix) is ?m)"
    by simp
  moreover have "D \<union> {i} \<times> {..<26} \<union> set is \<times> {..<26} = D \<union> set (i # is) \<times> {..<26}"
    by auto
  ultimately show ?case by simp
qed

lemma filled_init: "filled pos {} (replicate 26 (replicate 26 255))"
  by (simp add: filled_def)

lemma filled_matrix:
  "filled (get_key_positions rows) ({..<26} \<times> {..<26}) (compute_distance_matrix rows)"
proof -
  from filled_outer [OF filled_init, of "[0..<26]" "get_key_positions rows"]
  show ?thesis
    by (simp add: compute_distance_matrix_def Let_def lessThan_atLeast0)
qed

lemma matrix_length: "length (compute_distance_matrix rows) = 26"
  using filled_matrix [of rows] by (simp add: filled_def)

lemma matrix_row_length: "i < 26 \<Longrightarrow> length (compute_distance_matrix rows ! i) = 26"
  using filled_matrix [of rows] by (simp add: filled_def)

lemma matrix_entry:
  "i < 26 \<Longrightarrow> j < 26 \<Longrightarrow>
   compute_distance_matrix rows ! i ! j = distance_class (get_key_positions rows) i j"
  using filled_matrix [of rows] by (simp add: filled_def)

lemma distance_class_sym: "distance_class pos i j = distance_class pos j i"
  by (auto simp: distance_class_def Let_def abs_minus_commute max.commute split: option.splits)

lemma distance_class_values: "distance_class pos i j \<in> {0, 1, 2, 255}"
  by (auto simp: distance_class_def Let_def split: option.splits)

lemma distance_class_absent:
  "i \<noteq> j \<Longrightarrow> pos (chr_a i) = None \<Longrightarrow>
   distance_class pos i j = 255 \<and> distance_class pos j i = 255"
  by (auto simp: distance_class_def split: option.splits)

lemma chr_a_alphabet: "map chr_a [0..<26] = list_str ''abcdefghijklmnopqrstuvwxyz''"
  by code_simp

lemma qwerty_a_q: "distance_class (get_key_positions QWERTY_ROWS) 0 16 = 1"
  by code_simp

lemma qwerty_q_p: "distance_class (get_key_positions QWERTY_ROWS) 16 15 = 255"
  by code_simp

text \<open>
  Claim C1. Every entry of the matrix at letter indices below 26 is the distance class
  of the specification: 0 on the diagonal, 255 when one of the two letters has no
  position, and otherwise 1, 2 or 255 by the Chebyshev distance of the two positions
  (at most 2, at most 4, more).
\<close>

theorem distance_matrix_entry:
  "i < 26 \<Longrightarrow> j < 26 \<Longrightarrow>
   compute_distance_matrix rows ! i ! j = distance_class (get_key_positions rows) i j"
  by (rule matrix_entry)

theorem distance_matrix_entry_witness:
  "(0::nat) < 26 \<and> (16::nat) < 26 \<and> compute_distance_matrix QWERTY_ROWS ! 0 ! 16 = 1"
  using distance_matrix_entry [of 0 16 QWERTY_ROWS] by (simp add: qwerty_a_q)

text \<open>
  Claim C4. The matrix of every layout is symmetric.
\<close>

theorem distance_matrix_symmetric:
  "i < 26 \<Longrightarrow> j < 26 \<Longrightarrow>
   compute_distance_matrix rows ! i ! j = compute_distance_matrix rows ! j ! i"
  by (simp add: matrix_entry distance_class_sym [of _ i j])

theorem distance_matrix_symmetric_witness:
  "(0::nat) < 26 \<and> (16::nat) < 26
   \<and> compute_distance_matrix QWERTY_ROWS ! 0 ! 16 = compute_distance_matrix QWERTY_ROWS ! 16 ! 0"
  using distance_matrix_symmetric [of 0 16 QWERTY_ROWS] by simp

lemma matrix_diagonal: "i < 26 \<Longrightarrow> compute_distance_matrix rows ! i ! i = 0"
  by (simp add: matrix_entry distance_class_def)

lemma matrix_absent:
  assumes "i < 26" and "j < 26" and "i \<noteq> j" and "chr_a i \<notin> set (concat rows)"
  shows "compute_distance_matrix rows ! i ! j = 255 \<and> compute_distance_matrix rows ! j ! i = 255"
proof -
  from assms(4) have "get_key_positions rows (chr_a i) = None"
    by (rule positions_absent)
  with assms(3) have "distance_class (get_key_positions rows) i j = 255
      \<and> distance_class (get_key_positions rows) j i = 255"
    by (rule distance_class_absent)
  with assms(1,2) show ?thesis
    by (simp add: matrix_entry)
qed

text \<open>
  Claim C5. Every diagonal entry is 0, also for a letter that is not a key of the
  layout; such a letter has 255 in every other cell of its row and of its column.
\<close>

theorem distance_matrix_diagonal:
  "(\<forall>i < 26. compute_distance_matrix rows ! i ! i = 0)
   \<and> (\<forall>i < 26. \<forall>j < 26. i \<noteq> j \<and> chr_a i \<notin> set (concat rows) \<longrightarrow>
         compute_distance_matrix rows ! i ! j = 255 \<and> compute_distance_matrix rows ! j ! i = 255)"
  using matrix_diagonal [of _ rows] matrix_absent [of _ _ rows] by blast

theorem distance_matrix_diagonal_witness:
  "chr_a 2 \<notin> set (concat [[''a'', ''b'']])
   \<and> compute_distance_matrix [[''a'', ''b'']] ! 2 ! 2 = 0
   \<and> compute_distance_matrix [[''a'', ''b'']] ! 2 ! 0 = 255
   \<and> compute_distance_matrix [[''a'', ''b'']] ! 0 ! 2 = 255"
proof -
  have c: "chr_a 2 \<notin> set (concat [[''a'', ''b'']])"
    by code_simp
  from distance_matrix_diagonal [of "[[''a'', ''b'']]"]
  have d: "\<forall>i < 26. compute_distance_matrix [[''a'', ''b'']] ! i ! i = 0"
    and o: "\<forall>i < 26. \<forall>j < 26. i \<noteq> j \<and> chr_a i \<notin> set (concat [[''a'', ''b'']]) \<longrightarrow>
         compute_distance_matrix [[''a'', ''b'']] ! i ! j = 255
         \<and> compute_distance_matrix [[''a'', ''b'']] ! j ! i = 255"
    by blast+
  from d have "compute_distance_matrix [[''a'', ''b'']] ! 2 ! 2 = 0"
    by simp
  moreover from o c have "compute_distance_matrix [[''a'', ''b'']] ! 2 ! 0 = 255
      \<and> compute_distance_matrix [[''a'', ''b'']] ! 0 ! 2 = 255"
    by simp
  ultimately show ?thesis using c by simp
qed

lemma matrix_rows:
  assumes "row \<in> set (compute_distance_matrix rows)"
  shows "length row = 26 \<and> set row \<subseteq> {0, 1, 2, 255}"
proof -
  from assms obtain i where i: "i < 26" and row: "row = compute_distance_matrix rows ! i"
    by (auto simp: in_set_conv_nth matrix_length)
  then have l: "length row = 26" by (simp add: matrix_row_length)
  have "set row \<subseteq> {0, 1, 2, 255}"
  proof
    fix v assume "v \<in> set row"
    then obtain j where "j < 26" and "v = row ! j"
      using l by (auto simp: in_set_conv_nth)
    with i row have "v = distance_class (get_key_positions rows) i j"
      by (simp add: matrix_entry)
    then show "v \<in> {0, 1, 2, 255}"
      using distance_class_values [of "get_key_positions rows" i j] by simp
  qed
  with l show ?thesis by simp
qed

text \<open>
  Claim C6. The matrix has 26 rows of 26 entries, and every entry is 0, 1, 2 or 255.
\<close>

theorem distance_matrix_values:
  "length (compute_distance_matrix rows) = 26
   \<and> (\<forall>row \<in> set (compute_distance_matrix rows). length row = 26 \<and> set row \<subseteq> {0, 1, 2, 255})"
  using matrix_length [of rows] matrix_rows [of _ rows] by blast

theorem distance_matrix_values_witness:
  "compute_distance_matrix QWERTY_ROWS ! 0 \<in> set (compute_distance_matrix QWERTY_ROWS)
   \<and> length (compute_distance_matrix QWERTY_ROWS ! 0) = 26
   \<and> set (compute_distance_matrix QWERTY_ROWS ! 0) \<subseteq> {0, 1, 2, 255}"
proof -
  have "compute_distance_matrix QWERTY_ROWS ! 0 \<in> set (compute_distance_matrix QWERTY_ROWS)"
    by (rule nth_mem) (simp add: matrix_length)
  with distance_matrix_values [of QWERTY_ROWS] show ?thesis by blast
qed

section \<open>The built-in layouts\<close>

lemma full_qwerty: "full_layout QWERTY_ROWS"
  unfolding full_layout_def by code_simp

lemma full_azerty: "full_layout AZERTY_ROWS"
  unfolding full_layout_def by code_simp

lemma full_qwertz: "full_layout QWERTZ_ROWS"
  unfolding full_layout_def by code_simp

lemma full_dvorak: "full_layout DVORAK_ROWS"
  unfolding full_layout_def by code_simp

lemma full_colemak: "full_layout COLEMAK_ROWS"
  unfolding full_layout_def by code_simp

lemma chr_a_in_alphabet:
  assumes "i < 26"
  shows "chr_a i \<in> set (list_str ''abcdefghijklmnopqrstuvwxyz'')"
proof -
  from assms have "chr_a i \<in> set (map chr_a [0..<26])" by simp
  then show ?thesis by (simp only: chr_a_alphabet)
qed

lemma full_layout_total:
  assumes "full_layout rows" and "i < 26"
  shows "get_key_positions rows (chr_a i) \<noteq> None"
proof -
  from assms have "chr_a i \<in> set (concat rows)"
    using chr_a_in_alphabet [of i] by (simp add: full_layout_def)
  then have "chr_a i \<in> dom (get_key_positions rows)"
    by (simp only: positions_dom)
  then show ?thesis by blast
qed

lemma distance_class_255:
  assumes "pos (chr_a i) = Some (ri, ci)" and "pos (chr_a j) = Some (rj, cj)"
  shows "distance_class pos i j = 255 \<longleftrightarrow> i \<noteq> j \<and> 4 < max \<bar>ri - rj\<bar> \<bar>ci - cj\<bar>"
  using assms by (auto simp: distance_class_def Let_def)

lemma full_layout_255:
  assumes "full_layout rows" and "i < 26" and "j < 26"
  shows "compute_distance_matrix rows ! i ! j = 255 \<longleftrightarrow>
     i \<noteq> j \<and> (\<exists>ri ci rj cj. get_key_positions rows (chr_a i) = Some (ri, ci)
        \<and> get_key_positions rows (chr_a j) = Some (rj, cj)
        \<and> 4 < max \<bar>ri - rj\<bar> \<bar>ci - cj\<bar>)"
proof -
  from assms obtain ri ci rj cj
    where p: "get_key_positions rows (chr_a i) = Some (ri, ci)"
      "get_key_positions rows (chr_a j) = Some (rj, cj)"
    using full_layout_total [of rows i] full_layout_total [of rows j] by fastforce
  from assms have "compute_distance_matrix rows ! i ! j
      = distance_class (get_key_positions rows) i j"
    by (simp add: matrix_entry)
  with p show ?thesis
    by (simp add: distance_class_255)
qed

lemma full_layout_builtin:
  "(name, rows) \<in> set LAYOUTS \<Longrightarrow> full_layout rows"
  using full_qwerty full_azerty full_qwertz full_dvorak full_colemak
  by (auto simp: LAYOUTS_def)

text \<open>
  Claim C10. The registry holds the five layouts qwerty, azerty, qwertz, dvorak and
  colemak. In each of them the keys are pairwise distinct and are exactly the 26
  letters a..z, so every letter has a position, and an entry of the matrix is 255
  exactly when the two letters differ and the Chebyshev distance of their positions
  exceeds 4.
\<close>

theorem builtin_layouts_complete:
  "map fst LAYOUTS = [''qwerty'', ''azerty'', ''qwertz'', ''dvorak'', ''colemak'']
   \<and> (\<forall>(name, rows) \<in> set LAYOUTS.
         distinct (concat rows)
         \<and> set (concat rows) = set (list_str ''abcdefghijklmnopqrstuvwxyz'')
         \<and> (\<forall>i < 26. get_key_positions rows (chr_a i) \<noteq> None)
         \<and> (\<forall>i < 26. \<forall>j < 26.
               compute_distance_matrix rows ! i ! j = 255 \<longleftrightarrow>
               i \<noteq> j \<and> (\<exists>ri ci rj cj. get_key_positions rows (chr_a i) = Some (ri, ci)
                  \<and> get_key_positions rows (chr_a j) = Some (rj, cj)
                  \<and> 4 < max \<bar>ri - rj\<bar> \<bar>ci - cj\<bar>)))"
proof (intro conjI ballI)
  show "map fst LAYOUTS = [''qwerty'', ''azerty'', ''qwertz'', ''dvorak'', ''colemak'']"
    by (simp add: LAYOUTS_def)
next
  fix entry assume e: "entry \<in> set LAYOUTS"
  obtain name rows where nr: "entry = (name, rows)" by (cases entry)
  with e have f: "full_layout rows" by (simp add: full_layout_builtin)
  then have "distinct (concat rows)"
    and "set (concat rows) = set (list_str ''abcdefghijklmnopqrstuvwxyz'')"
    by (simp_all add: full_layout_def)
  moreover from f have "\<forall>i < 26. get_key_positions rows (chr_a i) \<noteq> None"
    by (simp add: full_layout_total)
  moreover from f have "\<forall>i < 26. \<forall>j < 26.
      compute_distance_matrix rows ! i ! j = 255 \<longleftrightarrow>
      i \<noteq> j \<and> (\<exists>ri ci rj cj. get_key_positions rows (chr_a i) = Some (ri, ci)
         \<and> get_key_positions rows (chr_a j) = Some (rj, cj)
         \<and> 4 < max \<bar>ri - rj\<bar> \<bar>ci - cj\<bar>)"
    using full_layout_255 [of rows] by blast
  ultimately show "case entry of (name, rows) \<Rightarrow>
         distinct (concat rows)
         \<and> set (concat rows) = set (list_str ''abcdefghijklmnopqrstuvwxyz'')
         \<and> (\<forall>i < 26. get_key_positions rows (chr_a i) \<noteq> None)
         \<and> (\<forall>i < 26. \<forall>j < 26.
               compute_distance_matrix rows ! i ! j = 255 \<longleftrightarrow>
               i \<noteq> j \<and> (\<exists>ri ci rj cj. get_key_positions rows (chr_a i) = Some (ri, ci)
                  \<and> get_key_positions rows (chr_a j) = Some (rj, cj)
                  \<and> 4 < max \<bar>ri - rj\<bar> \<bar>ci - cj\<bar>))"
    unfolding nr by simp
qed

theorem builtin_layouts_complete_witness:
  "(''dvorak'', DVORAK_ROWS) \<in> set LAYOUTS
   \<and> distinct (concat DVORAK_ROWS)
   \<and> get_key_positions DVORAK_ROWS (chr_a 25) \<noteq> None
   \<and> (compute_distance_matrix DVORAK_ROWS ! 0 ! 25 = 255 \<longleftrightarrow>
        (0::nat) \<noteq> 25 \<and> (\<exists>ri ci rj cj. get_key_positions DVORAK_ROWS (chr_a 0) = Some (ri, ci)
           \<and> get_key_positions DVORAK_ROWS (chr_a 25) = Some (rj, cj)
           \<and> 4 < max \<bar>ri - rj\<bar> \<bar>ci - cj\<bar>))"
proof -
  have m: "(''dvorak'', DVORAK_ROWS) \<in> set LAYOUTS"
    by (simp add: LAYOUTS_def)
  with builtin_layouts_complete
  have "distinct (concat DVORAK_ROWS)
     \<and> set (concat DVORAK_ROWS) = set (list_str ''abcdefghijklmnopqrstuvwxyz'')
     \<and> (\<forall>i < 26. get_key_positions DVORAK_ROWS (chr_a i) \<noteq> None)
     \<and> (\<forall>i < 26. \<forall>j < 26.
           compute_distance_matrix DVORAK_ROWS ! i ! j = 255 \<longleftrightarrow>
           i \<noteq> j \<and> (\<exists>ri ci rj cj. get_key_positions DVORAK_ROWS (chr_a i) = Some (ri, ci)
              \<and> get_key_positions DVORAK_ROWS (chr_a j) = Some (rj, cj)
              \<and> 4 < max \<bar>ri - rj\<bar> \<bar>ci - cj\<bar>))"
    by fast
  with m show ?thesis by simp
qed

section \<open>Properties of the file writer\<close>

lemma MAGIC_bytes: "MAGIC = [75, 89, 66, 68]"
  by (simp add: MAGIC_def)

lemma fits_accepted: "fits env path bs \<Longrightarrow> accepted env path bs = bs"
  by (simp add: fits_def accepted_def split: option.splits)

lemma fits_prefix: "fits env path (xs @ ys) \<Longrightarrow> fits env path xs"
  by (simp add: fits_def split: option.splits)

lemma accepted_overflow:
  "\<not> fits env path xs \<Longrightarrow> accepted env path (xs @ ys) = accepted env path xs"
  by (simp add: fits_def accepted_def split: option.splits)

lemma f_write_result:
  assumes "fs path = Some cur" and "fits env path cur"
  shows "f_write env path chunk fs =
    (if fits env path (cur @ chunk) then None else Some OSError,
     fs(path \<mapsto> accepted env path (cur @ chunk)))"
  using assms
  by (auto simp: f_write_def fits_def accepted_def Let_def split: option.splits)

lemma write_rows_result:
  "fs path = Some cur \<Longrightarrow> fits env path cur \<Longrightarrow> valid_rows matrix \<Longrightarrow>
   write_rows env path matrix fs =
     (if fits env path (cur @ concat (byte_rows matrix)) then None else Some OSError,
      fs(path \<mapsto> accepted env path (cur @ concat (byte_rows matrix))))"
proof (induction matrix arbitrary: fs cur)
  case Nil
  then show ?case
    by (simp add: byte_rows_def fits_accepted fun_upd_idem)
next
  case (Cons row rest)
  let ?b = "map word_of_int row :: byte list"
  from Cons.prems have b: "bytes row = Inr ?b" and v: "valid_rows rest"
    by (simp_all add: bytes_def valid_rows_def)
  have w: "f_write env path ?b fs =
      (if fits env path (cur @ ?b) then None else Some OSError,
       fs(path \<mapsto> accepted env path (cur @ ?b)))"
    using Cons.prems(1,2) by (rule f_write_result)
  show ?case
  proof (cases "fits env path (cur @ ?b)")
    case True
    let ?fs = "fs(path \<mapsto> cur @ ?b)"
    have p: "?fs path = Some (cur @ ?b)" by simp
    from Cons.IH [of ?fs "cur @ ?b", OF p True v]
    have "write_rows env path rest ?fs =
        (if fits env path ((cur @ ?b) @ concat (byte_rows rest)) then None else Some OSError,
         fs(path \<mapsto> accepted env path ((cur @ ?b) @ concat (byte_rows rest))))"
      by (simp only: fun_upd_upd)
    with b w True show ?thesis
      by (simp add: fits_accepted byte_rows_def del: fun_upd_apply)
  next
    case False
    then have "\<not> fits env path ((cur @ ?b) @ concat (byte_rows rest))"
      using fits_prefix by blast
    moreover from False
    have "accepted env path ((cur @ ?b) @ concat (byte_rows rest)) = accepted env path (cur @ ?b)"
      by (rule accepted_overflow)
    ultimately show ?thesis using b w False
      by (simp add: byte_rows_def del: fun_upd_apply)
  qed
qed

lemma file_bytes_eq: "file_bytes matrix = [75, 89, 66, 68, 1] @ concat (byte_rows matrix)"
  by (simp add: file_bytes_def MAGIC_bytes VERSION_def byte_rows_def)

lemma fits_Nil: "fits env path []"
  by (simp add: fits_def split: option.splits)

lemma write_matrix_result:
  assumes "valid_rows matrix"
  shows "write_matrix env path matrix fs =
    (if \<not> open_ok env path then (Some OSError, fs)
     else (if fits env path (file_bytes matrix) then None else Some OSError,
           fs(path \<mapsto> accepted env path (file_bytes matrix))))"
proof (cases "open_ok env path")
  case False
  then show ?thesis by (simp add: write_matrix_def open_wb_def)
next
  case True
  let ?fs0 = "fs(path \<mapsto> [])"
  have o: "open_wb env path fs = (None, ?fs0)"
    using True by (simp add: open_wb_def)
  have w1: "f_write env path MAGIC ?fs0 =
      (if fits env path ([] @ MAGIC) then None else Some OSError,
       ?fs0(path \<mapsto> accepted env path ([] @ MAGIC)))"
    by (rule f_write_result) (simp_all add: fits_Nil)
  show ?thesis
  proof (cases "fits env path MAGIC")
    case m: False
    then have "\<not> fits env path (MAGIC @ [1] @ concat (byte_rows matrix))"
      using fits_prefix by blast
    moreover from m
    have "accepted env path (MAGIC @ [1] @ concat (byte_rows matrix)) = accepted env path MAGIC"
      by (rule accepted_overflow)
    ultimately show ?thesis using True o w1 m
      by (simp add: write_matrix_def file_bytes_def VERSION_def byte_rows_def
          del: fun_upd_apply)
  next
    case m: True
    let ?fs1 = "fs(path \<mapsto> MAGIC)"
    have w1': "f_write env path MAGIC ?fs0 = (None, ?fs1)"
      using w1 m by (simp add: fits_accepted del: fun_upd_apply)
    have w2: "f_write env path [1] ?fs1 =
        (if fits env path (MAGIC @ [1]) then None else Some OSError,
         ?fs1(path \<mapsto> accepted env path (MAGIC @ [1])))"
      by (rule f_write_result) (simp_all add: m)
    show ?thesis
    proof (cases "fits env path (MAGIC @ [1])")
      case h: False
      then have "\<not> fits env path ((MAGIC @ [1]) @ concat (byte_rows matrix))"
        using fits_prefix by blast
      moreover from h
      have "accepted env path ((MAGIC @ [1]) @ concat (byte_rows matrix))
          = accepted env path (MAGIC @ [1])"
        by (rule accepted_overflow)
      ultimately show ?thesis using True o w1' w2 h
        by (simp add: write_matrix_def file_bytes_def VERSION_def byte_rows_def pack_B_def
            del: fun_upd_apply)
    next
      case h: True
      let ?fs2 = "fs(path \<mapsto> MAGIC @ [1])"
      have w2': "f_write env path [1] ?fs1 = (None, ?fs2)"
        using w2 h by (simp add: fits_accepted del: fun_upd_apply)
      have p: "?fs2 path = Some (MAGIC @ [1])" by simp
      from write_rows_result [of ?fs2 path "MAGIC @ [1]" env matrix, OF p h assms]
      have "write_rows env path matrix ?fs2 =
          (if fits env path ((MAGIC @ [1]) @ concat (byte_rows matrix)) then None else Some OSError,
           fs(path \<mapsto> accepted env path ((MAGIC @ [1]) @ concat (byte_rows matrix))))"
        by (simp only: fun_upd_upd)
      with True o w1' w2' show ?thesis
        by (simp add: write_matrix_def file_bytes_def VERSION_def byte_rows_def pack_B_def
            del: fun_upd_apply)
    qed
  qed
qed

lemma concat_uniform_length:
  "\<forall>r \<in> set xs. length r = n \<Longrightarrow> length (concat xs) = length xs * n"
  by (induction xs) auto

lemma concat_uniform_nth:
  "\<forall>r \<in> set xs. length r = n \<Longrightarrow> i < length xs \<Longrightarrow> j < n \<Longrightarrow>
   concat xs ! (i * n + j) = xs ! i ! j"
proof (induction xs arbitrary: i)
  case Nil
  then show ?case by simp
next
  case (Cons x xs)
  show ?case
  proof (cases i)
    case 0
    with Cons.prems show ?thesis by (simp add: nth_append)
  next
    case (Suc i')
    with Cons.prems Cons.IH [of i'] show ?thesis
      by (simp add: nth_append)
  qed
qed

lemma matrix_valid: "valid_rows (compute_distance_matrix rows)"
proof -
  have "\<forall>row \<in> set (compute_distance_matrix rows). \<forall>v \<in> set row. 0 \<le> v \<and> v \<le> 255"
    using matrix_rows [of _ rows] by fastforce
  then show ?thesis
    by (simp add: valid_rows_def list_all_iff)
qed

lemma byte_rows_uniform:
  "\<forall>r \<in> set (byte_rows (compute_distance_matrix rows)). length r = 26"
  using matrix_rows [of _ rows] by (auto simp: byte_rows_def)

lemma matrix_file_length: "length (file_bytes (compute_distance_matrix rows)) = 681"
  using concat_uniform_length [OF byte_rows_uniform, of rows]
  by (simp add: file_bytes_eq byte_rows_def matrix_length)

lemma matrix_file_nth:
  assumes "i < 26" and "j < 26"
  shows "file_bytes (compute_distance_matrix rows) ! (5 + 26 * i + j)
    = word_of_int (compute_distance_matrix rows ! i ! j)"
proof -
  let ?m = "compute_distance_matrix rows"
  have "file_bytes ?m ! (5 + 26 * i + j) = concat (byte_rows ?m) ! (i * 26 + j)"
    by (simp add: file_bytes_eq nth_append mult.commute)
  also have "\<dots> = byte_rows ?m ! i ! j"
    using byte_rows_uniform assms
    by (intro concat_uniform_nth) (simp_all add: byte_rows_def matrix_length)
  also have "\<dots> = word_of_int (?m ! i ! j)"
    using assms by (simp add: byte_rows_def matrix_length matrix_row_length)
  finally show ?thesis .
qed

lemma write_layout_file_result:
  "write_layout_file env path rows fs =
    (if \<not> open_ok env path then (Some OSError, fs)
     else (if fits env path (file_bytes (compute_distance_matrix rows)) then print_out env
           else Some OSError,
           fs(path \<mapsto> accepted env path (file_bytes (compute_distance_matrix rows)))))"
  unfolding write_layout_file_def Let_def
  by (simp add: write_matrix_result [OF matrix_valid] getsize_def)

lemma write_layout_file_limit:
  assumes "open_ok env path" and "write_limit env path = Some n"
  shows "write_layout_file env path rows fs =
    (if 681 \<le> n then (print_out env, fs(path \<mapsto> file_bytes (compute_distance_matrix rows)))
     else (Some OSError, fs(path \<mapsto> take n (file_bytes (compute_distance_matrix rows)))))"
  using assms
  by (simp add: write_layout_file_result fits_def accepted_def matrix_file_length)

lemma write_layout_file_unlimited:
  assumes "open_ok env path" and "write_limit env path = None"
  shows "write_layout_file env path rows fs =
    (print_out env, fs(path \<mapsto> file_bytes (compute_distance_matrix rows)))"
  using assms by (simp add: write_layout_file_result fits_def accepted_def)

text \<open>
  Claim C3. When the destination can be opened and written without limit, the file
  written for a layout is the 4 bytes of \<open>KYBD\<close>, one byte 1 and the 26 rows of 26 matrix
  bytes in row-major order: 681 bytes, the first five being 75, 89, 66, 68, 1. The call
  raises only when the size of the file cannot be printed afterwards.
\<close>

theorem layout_file_encoding:
  "(open_ok env path \<and> write_limit env path = None \<longrightarrow>
      write_layout_file env path rows fs
        = (if stdout_ok env then None else Some OSError,
           fs(path \<mapsto> file_bytes (compute_distance_matrix rows))))
   \<and> length (file_bytes (compute_distance_matrix rows)) = 681
   \<and> take 5 (file_bytes (compute_distance_matrix rows)) = [75, 89, 66, 68, 1]
   \<and> map of_char ''KYBD'' = [75, 89, 66, 68 :: byte]
   \<and> (\<forall>i < 26. \<forall>j < 26.
         file_bytes (compute_distance_matrix rows) ! (5 + 26 * i + j)
           = word_of_int (compute_distance_matrix rows ! i ! j))"
proof -
  have "open_ok env path \<and> write_limit env path = None \<longrightarrow>
      write_layout_file env path rows fs
        = (if stdout_ok env then None else Some OSError,
           fs(path \<mapsto> file_bytes (compute_distance_matrix rows)))"
    by (simp add: write_layout_file_unlimited print_out_def)
  moreover have "take 5 (file_bytes (compute_distance_matrix rows)) = [75, 89, 66, 68, 1]"
    by (simp add: file_bytes_eq)
  moreover have "map of_char ''KYBD'' = [75, 89, 66, 68 :: byte]"
    by simp
  ultimately show ?thesis
    using matrix_file_length [of rows] matrix_file_nth [of _ _ rows] by blast
qed

theorem layout_file_encoding_witness:
  "open_ok env_ok ''keyboard_qwerty.bin'' \<and> write_limit env_ok ''keyboard_qwerty.bin'' = None
   \<and> write_layout_file env_ok ''keyboard_qwerty.bin'' QWERTY_ROWS Map.empty
       = (None, [''keyboard_qwerty.bin'' \<mapsto> file_bytes (compute_distance_matrix QWERTY_ROWS)])
   \<and> write_layout_file env_no_stdout ''keyboard_qwerty.bin'' QWERTY_ROWS Map.empty
       = (Some OSError, [''keyboard_qwerty.bin'' \<mapsto> file_bytes (compute_distance_matrix QWERTY_ROWS)])
   \<and> file_bytes (compute_distance_matrix QWERTY_ROWS) ! (5 + 26 * 0 + 16) = 1"
proof -
  have e: "open_ok env_ok ''keyboard_qwerty.bin'' \<and> write_limit env_ok ''keyboard_qwerty.bin'' = None"
    by (simp add: env_ok_def)
  from layout_file_encoding [of env_ok "''keyboard_qwerty.bin''" QWERTY_ROWS Map.empty] e
  have w: "write_layout_file env_ok ''keyboard_qwerty.bin'' QWERTY_ROWS Map.empty
       = (if stdout_ok env_ok then None else Some OSError,
          [''keyboard_qwerty.bin'' \<mapsto> file_bytes (compute_distance_matrix QWERTY_ROWS)])"
    and n: "\<forall>i < 26. \<forall>j < 26.
         file_bytes (compute_distance_matrix QWERTY_ROWS) ! (5 + 26 * i + j)
           = word_of_int (compute_distance_matrix QWERTY_ROWS ! i ! j)"
    by blast+
  have s: "open_ok env_no_stdout ''keyboard_qwerty.bin''
      \<and> write_limit env_no_stdout ''keyboard_qwerty.bin'' = None"
    by (simp add: env_no_stdout_def)
  from layout_file_encoding [of env_no_stdout "''keyboard_qwerty.bin''" QWERTY_ROWS Map.empty] s
  have v: "write_layout_file env_no_stdout ''keyboard_qwerty.bin'' QWERTY_ROWS Map.empty
       = (if stdout_ok env_no_stdout then None else Some OSError,
          [''keyboard_qwerty.bin'' \<mapsto> file_bytes (compute_distance_matrix QWERTY_ROWS)])"
    by blast
  have "(0::nat) < 26" "(16::nat) < 26" by simp_all
  with n have "file_bytes (compute_distance_matrix QWERTY_ROWS) ! (5 + 26 * 0 + 16)
      = word_of_int (compute_distance_matrix QWERTY_ROWS ! 0 ! 16)"
    by blast
  also have "\<dots> = 1"
    by (simp add: matrix_entry qwerty_a_q)
  finally have "file_bytes (compute_distance_matrix QWERTY_ROWS) ! (5 + 26 * 0 + 16) = 1" .
  moreover have "stdout_ok env_ok" "\<not> stdout_ok env_no_stdout"
    by (simp_all add: env_ok_def env_no_stdout_def)
  ultimately show ?thesis using e w v by simp
qed

text \<open>
  Claim C9 as stated fails: the file is opened and written at the destination path
  itself. When the file accepts only 100 bytes the operation fails with OSError and
  leaves a file of 100 bytes at the destination.
\<close>

theorem layout_file_partial_counterexample:
  "write_layout_file (env_limit 100) ''keyboard_qwerty.bin'' QWERTY_ROWS no_files
     = (Some OSError,
        no_files(''keyboard_qwerty.bin'' \<mapsto> take 100 (file_bytes (compute_distance_matrix QWERTY_ROWS))))
   \<and> length (take 100 (file_bytes (compute_distance_matrix QWERTY_ROWS))) = 100
   \<and> (100 :: nat) < 681"
  by (simp add: write_layout_file_limit env_limit_def matrix_file_length)

text \<open>
  Claim C9, amended. When the destination cannot be opened the operation fails with
  OSError and the file system is unchanged. When a write fails after \<open>n < 681\<close> bytes
  the operation fails with OSError and the destination holds the first \<open>n\<close> bytes: the
  file is truncated and written in place, with no temporary file. When the destination
  can be opened and accepts all the bytes, it holds the complete file of 681 bytes
  afterwards.
\<close>

theorem layout_file_written_in_place:
  "(\<not> open_ok env path \<longrightarrow> write_layout_file env path rows fs = (Some OSError, fs))
   \<and> (\<forall>n. open_ok env path \<and> write_limit env path = Some n \<and> n < 681 \<longrightarrow>
        write_layout_file env path rows fs
          = (Some OSError, fs(path \<mapsto> take n (file_bytes (compute_distance_matrix rows))))
        \<and> length (take n (file_bytes (compute_distance_matrix rows))) = n)
   \<and> (open_ok env path
        \<and> (write_limit env path = None \<or> (\<exists>n. write_limit env path = Some n \<and> 681 \<le> n)) \<longrightarrow>
        snd (write_layout_file env path rows fs)
          = fs(path \<mapsto> file_bytes (compute_distance_matrix rows))
        \<and> length (file_bytes (compute_distance_matrix rows)) = 681)"
proof -
  have "\<not> open_ok env path \<longrightarrow> write_layout_file env path rows fs = (Some OSError, fs)"
    by (simp add: write_layout_file_result)
  moreover have "\<forall>n. open_ok env path \<and> write_limit env path = Some n \<and> n < 681 \<longrightarrow>
        write_layout_file env path rows fs
          = (Some OSError, fs(path \<mapsto> take n (file_bytes (compute_distance_matrix rows))))
        \<and> length (take n (file_bytes (compute_distance_matrix rows))) = n"
    by (simp add: write_layout_file_limit matrix_file_length)
  moreover have "open_ok env path
        \<and> (write_limit env path = None \<or> (\<exists>n. write_limit env path = Some n \<and> 681 \<le> n)) \<longrightarrow>
        snd (write_layout_file env path rows fs)
          = fs(path \<mapsto> file_bytes (compute_distance_matrix rows))
        \<and> length (file_bytes (compute_distance_matrix rows)) = 681"
    by (auto simp: write_layout_file_limit write_layout_file_unlimited matrix_file_length)
  ultimately show ?thesis by blast
qed

theorem layout_file_written_in_place_witness:
  "\<not> open_ok env_closed ''keyboard_azerty.bin''
   \<and> write_layout_file env_closed ''keyboard_azerty.bin'' AZERTY_ROWS no_files = (Some OSError, no_files)
   \<and> open_ok (env_limit 4) ''keyboard_azerty.bin''
   \<and> write_limit (env_limit 4) ''keyboard_azerty.bin'' = Some 4
   \<and> write_layout_file (env_limit 4) ''keyboard_azerty.bin'' AZERTY_ROWS no_files
       = (Some OSError, no_files(''keyboard_azerty.bin'' \<mapsto> [75, 89, 66, 68]))
   \<and> open_ok (env_limit 681) ''keyboard_azerty.bin''
   \<and> write_limit (env_limit 681) ''keyboard_azerty.bin'' = Some 681
   \<and> snd (write_layout_file (env_limit 681) ''keyboard_azerty.bin'' AZERTY_ROWS no_files)
       = no_files(''keyboard_azerty.bin'' \<mapsto> file_bytes (compute_distance_matrix AZERTY_ROWS))"
proof -
  have c: "\<not> open_ok env_closed ''keyboard_azerty.bin''"
    by (simp add: env_closed_def)
  with layout_file_written_in_place [of env_closed "''keyboard_azerty.bin''" AZERTY_ROWS no_files]
  have 1: "write_layout_file env_closed ''keyboard_azerty.bin'' AZERTY_ROWS no_files = (Some OSError, no_files)"
    by blast
  have l: "open_ok (env_limit 4) ''keyboard_azerty.bin''
      \<and> write_limit (env_limit 4) ''keyboard_azerty.bin'' = Some 4 \<and> (4::nat) < 681"
    by (simp add: env_limit_def)
  with layout_file_written_in_place [of "env_limit 4" "''keyboard_azerty.bin''" AZERTY_ROWS no_files]
  have "write_layout_file (env_limit 4) ''keyboard_azerty.bin'' AZERTY_ROWS no_files
       = (Some OSError, no_files(''keyboard_azerty.bin'' \<mapsto> take 4 (file_bytes (compute_distance_matrix AZERTY_ROWS))))"
    by blast
  moreover have "take 4 (file_bytes (compute_distance_matrix AZERTY_ROWS)) = [75, 89, 66, 68]"
    by (simp add: file_bytes_eq)
  ultimately have 2: "write_layout_file (env_limit 4) ''keyboard_azerty.bin'' AZERTY_ROWS no_files
       = (Some OSError, no_files(''keyboard_azerty.bin'' \<mapsto> [75, 89, 66, 68]))"
    by simp
  have f: "open_ok (env_limit 681) ''keyboard_azerty.bin''
      \<and> write_limit (env_limit 681) ''keyboard_azerty.bin'' = Some 681 \<and> (681::nat) \<le> 681"
    by (simp add: env_limit_def)
  with layout_file_written_in_place [of "env_limit 681" "''keyboard_azerty.bin''" AZERTY_ROWS no_files]
  have 3: "snd (write_layout_file (env_limit 681) ''keyboard_azerty.bin'' AZERTY_ROWS no_files)
       = no_files(''keyboard_azerty.bin'' \<mapsto> file_bytes (compute_distance_matrix AZERTY_ROWS))"
    by blast
  from c 1 l 2 f 3 show ?thesis by blast
qed

section \<open>Properties of the decoder\<close>

lemma chunks_concat:
  "\<forall>r \<in> set xs. length r = n \<Longrightarrow> chunks (length xs) n (concat xs) = xs"
  by (induction xs) auto

lemma is_matrix_valid: "is_matrix m \<Longrightarrow> valid_rows m"
  by (auto simp: is_matrix_def valid_rows_def list_all_iff)

lemma is_matrix_uniform: "is_matrix m \<Longrightarrow> \<forall>r \<in> set (byte_rows m). length r = 26"
  by (auto simp: is_matrix_def byte_rows_def list_all_iff)

lemma is_matrix_file_length: "is_matrix m \<Longrightarrow> length (file_bytes m) = 681"
  using concat_uniform_length [OF is_matrix_uniform, of m]
  by (simp add: file_bytes_eq byte_rows_def is_matrix_def)

lemma header_ok_file_bytes: "header_ok (file_bytes m)"
  by (simp add: header_ok_def file_bytes_eq MAGIC_bytes VERSION_def)

lemma header_ok_nth:
  "5 \<le> length bs \<Longrightarrow> header_ok bs \<longleftrightarrow> take 4 bs = MAGIC \<and> bs ! 4 = 1"
  by (cases "drop 4 bs") (auto simp: header_ok_def VERSION_def nth_via_drop)

lemma payload_file_bytes:
  assumes "is_matrix m"
  shows "chunks 26 26 (drop 5 (file_bytes m)) = byte_rows m"
proof -
  have "length (byte_rows m) = 26"
    using assms by (simp add: byte_rows_def is_matrix_def)
  then have "chunks 26 26 (concat (byte_rows m)) = byte_rows m"
    using chunks_concat [OF is_matrix_uniform [OF assms]] by simp
  then show ?thesis by (simp add: file_bytes_eq)
qed

lemma decodes_file_bytes:
  assumes "is_matrix m"
  shows "decodes (file_bytes m) r \<longleftrightarrow> r = Inr (byte_rows m)"
  using is_matrix_file_length [OF assms] payload_file_bytes [OF assms]
  by (auto simp: decodes.simps header_ok_file_bytes)

lemma decodes_failure:
  "\<not> header_ok bs \<or> length bs < 681 \<Longrightarrow> decodes bs r \<Longrightarrow>
   r = Inl MalformedFile \<or> r = Inl TruncatedFile"
  by (auto simp: decodes.simps)

lemma decodes_malformed_only:
  "\<not> header_ok bs \<Longrightarrow> 681 \<le> length bs \<Longrightarrow> decodes bs r \<Longrightarrow> r = Inl MalformedFile"
  by (auto simp: decodes.simps)

lemma decodes_truncated_only:
  "header_ok bs \<Longrightarrow> length bs < 681 \<Longrightarrow> decodes bs r \<Longrightarrow> r = Inl TruncatedFile"
  by (auto simp: decodes.simps)

lemma decodes_total: "\<exists>r. decodes bs r"
proof (cases "length bs < 681")
  case True
  then show ?thesis by (blast intro: decodes.truncated)
next
  case False
  show ?thesis
  proof (cases "header_ok bs")
    case True
    with False have "decodes bs (Inr (chunks 26 26 (drop 5 bs)))"
      by (simp add: decodes.payload)
    then show ?thesis ..
  next
    case False
    then have "decodes bs (Inl MalformedFile)"
      by (rule decodes.malformed)
    then show ?thesis ..
  qed
qed

lemma byte_value: "0 \<le> v \<Longrightarrow> v \<le> 255 \<Longrightarrow> uint (word_of_int v :: byte) = v"
  by (simp add: uint_word_of_int take_bit_eq_mod)

lemma byte_rows_values:
  assumes "is_matrix m"
  shows "map (map uint) (byte_rows m) = m"
proof -
  have "\<forall>row \<in> set m. map (\<lambda>v. uint (word_of_int v :: byte)) row = row"
    using assms by (auto simp: is_matrix_def list_all_iff byte_value intro!: map_idI)
  then show ?thesis
    by (simp add: byte_rows_def comp_def map_idI)
qed

lemma write_matrix_ok:
  assumes "is_matrix m" and "open_ok env path" and "write_limit env path = None"
  shows "write_matrix env path m fs = (None, fs(path \<mapsto> file_bytes m))"
  using assms(2,3) write_matrix_result [OF is_matrix_valid [OF assms(1)], of env path fs]
  by (simp add: fits_def accepted_def)

text \<open>
  Claim C7. For every matrix of 26 rows of 26 values in 0..255, the file written for it
  decodes to the same matrix, byte for byte, and to nothing else. Decoding a sequence
  whose magic tag or version byte is wrong fails, and MalformedFile is the failure the
  specification gives for it; decoding a sequence of fewer than 681 bytes fails, and
  TruncatedFile is the failure the specification gives for it. A wrongly tagged
  sequence of full length can only fail with MalformedFile, and a short sequence with
  the right header can only fail with TruncatedFile.
\<close>

theorem decode_contract:
  "(is_matrix m \<and> open_ok env path \<and> write_limit env path = None \<longrightarrow>
      write_matrix env path m fs = (None, fs(path \<mapsto> file_bytes m))
      \<and> decodes (file_bytes m) (Inr (byte_rows m))
      \<and> (\<forall>r. decodes (file_bytes m) r \<longrightarrow> r = Inr (byte_rows m))
      \<and> map (map uint) (byte_rows m) = m)
   \<and> (\<not> header_ok bs \<longrightarrow>
        decodes bs (Inl MalformedFile)
        \<and> (\<forall>r. decodes bs r \<longrightarrow> r = Inl MalformedFile \<or> r = Inl TruncatedFile))
   \<and> (length bs < 681 \<longrightarrow>
        decodes bs (Inl TruncatedFile)
        \<and> (\<forall>r. decodes bs r \<longrightarrow> r = Inl MalformedFile \<or> r = Inl TruncatedFile))
   \<and> (\<not> header_ok bs \<and> 681 \<le> length bs \<longrightarrow> (\<forall>r. decodes bs r \<longrightarrow> r = Inl MalformedFile))
   \<and> (header_ok bs \<and> length bs < 681 \<longrightarrow> (\<forall>r. decodes bs r \<longrightarrow> r = Inl TruncatedFile))
   \<and> (5 \<le> length bs \<longrightarrow> (header_ok bs \<longleftrightarrow> take 4 bs = MAGIC \<and> bs ! 4 = 1))
   \<and> (\<exists>r. decodes bs r)"
proof -
  have "is_matrix m \<and> open_ok env path \<and> write_limit env path = None \<longrightarrow>
      write_matrix env path m fs = (None, fs(path \<mapsto> file_bytes m))
      \<and> decodes (file_bytes m) (Inr (byte_rows m))
      \<and> (\<forall>r. decodes (file_bytes m) r \<longrightarrow> r = Inr (byte_rows m))
      \<and> map (map uint) (byte_rows m) = m"
    using write_matrix_ok [of m env path fs] decodes_file_bytes [of m] byte_rows_values [of m]
    by blast
  moreover have "\<not> header_ok bs \<longrightarrow>
        decodes bs (Inl MalformedFile)
        \<and> (\<forall>r. decodes bs r \<longrightarrow> r = Inl MalformedFile \<or> r = Inl TruncatedFile)"
    using decodes.malformed [of bs] decodes_failure [of bs] by blast
  moreover have "length bs < 681 \<longrightarrow>
        decodes bs (Inl TruncatedFile)
        \<and> (\<forall>r. decodes bs r \<longrightarrow> r = Inl MalformedFile \<or> r = Inl TruncatedFile)"
    using decodes.truncated [of bs] decodes_failure [of bs] by blast
  moreover have "\<not> header_ok bs \<and> 681 \<le> length bs \<longrightarrow> (\<forall>r. decodes bs r \<longrightarrow> r = Inl MalformedFile)"
    using decodes_malformed_only [of bs] by blast
  moreover have "header_ok bs \<and> length bs < 681 \<longrightarrow> (\<forall>r. decodes bs r \<longrightarrow> r = Inl TruncatedFile)"
    using decodes_truncated_only [of bs] by blast
  moreover have "5 \<le> length bs \<longrightarrow> (header_ok bs \<longleftrightarrow> take 4 bs = MAGIC \<and> bs ! 4 = 1)"
    using header_ok_nth [of bs] by blast
  ultimately show ?thesis
    using decodes_total [of bs] by blast
qed

theorem decode_contract_witness:
  "is_matrix (compute_distance_matrix QWERTY_ROWS)
   \<and> open_ok env_ok ''keyboard_qwerty.bin'' \<and> write_limit env_ok ''keyboard_qwerty.bin'' = None
   \<and> decodes (file_bytes (compute_distance_matrix QWERTY_ROWS))
       (Inr (byte_rows (compute_distance_matrix QWERTY_ROWS)))
   \<and> \<not> decodes (file_bytes (compute_distance_matrix QWERTY_ROWS)) (Inl MalformedFile)
   \<and> \<not> header_ok (replicate 681 7) \<and> 681 \<le> length (replicate 681 (7::byte))
   \<and> decodes (replicate 681 7) (Inl MalformedFile)
   \<and> \<not> decodes (replicate 681 7) (Inl TruncatedFile)
   \<and> header_ok (take 680 (file_bytes (compute_distance_matrix QWERTY_ROWS)))
   \<and> length (take 680 (file_bytes (compute_distance_matrix QWERTY_ROWS))) < 681
   \<and> decodes (take 680 (file_bytes (compute_distance_matrix QWERTY_ROWS))) (Inl TruncatedFile)
   \<and> \<not> decodes (take 680 (file_bytes (compute_distance_matrix QWERTY_ROWS))) (Inl MalformedFile)"
proof -
  let ?m = "compute_distance_matrix QWERTY_ROWS"
  have m: "is_matrix ?m"
    using matrix_rows [of _ QWERTY_ROWS]
    by (fastforce simp: is_matrix_def list_all_iff matrix_length)
  have e: "open_ok env_ok ''keyboard_qwerty.bin'' \<and> write_limit env_ok ''keyboard_qwerty.bin'' = None"
    by (simp add: env_ok_def)
  from decode_contract [of ?m env_ok "''keyboard_qwerty.bin''" no_files] m e
  have 1: "decodes (file_bytes ?m) (Inr (byte_rows ?m))"
    and 2: "\<forall>r. decodes (file_bytes ?m) r \<longrightarrow> r = Inr (byte_rows ?m)"
    by blast+
  from 2 have 3: "\<not> decodes (file_bytes ?m) (Inl MalformedFile)"
    by blast
  have "replicate 4 (7::byte) = [7, 7, 7, 7]"
    by (simp add: numeral_eq_Suc)
  then have t: "\<not> header_ok (replicate 681 7) \<and> 681 \<le> length (replicate 681 (7::byte))"
    by (simp add: header_ok_def MAGIC_bytes)
  with decode_contract [of _ _ _ _ "replicate 681 7"]
  have 4: "decodes (replicate 681 7) (Inl MalformedFile)"
    and 5: "\<forall>r. decodes (replicate 681 7) r \<longrightarrow> r = Inl MalformedFile"
    by blast+
  from 5 have 6: "\<not> decodes (replicate 681 7) (Inl TruncatedFile)"
    by blast
  have h: "header_ok (take 680 (file_bytes ?m)) \<and> length (take 680 (file_bytes ?m)) < 681"
    by (simp add: header_ok_def file_bytes_eq MAGIC_bytes VERSION_def)
  with decode_contract [of _ _ _ _ "take 680 (file_bytes ?m)"]
  have 7: "decodes (take 680 (file_bytes ?m)) (Inl TruncatedFile)"
    and 8: "\<forall>r. decodes (take 680 (file_bytes ?m)) r \<longrightarrow> r = Inl TruncatedFile"
    by blast+
  from 8 have 9: "\<not> decodes (take 680 (file_bytes ?m)) (Inl MalformedFile)"
    by blast
  from m e 1 3 t 4 6 h 7 9 show ?thesis by blast
qed

section \<open>Properties of the command line driver\<close>

lemma generate_result:
  "stdout_ok env \<Longrightarrow>
   list_all (\<lambda>(name, rows). map_of LAYOUTS name = Some rows
       \<and> open_ok env (layout_path output name)
       \<and> fits env (layout_path output name) (file_bytes (compute_distance_matrix rows))) entries \<Longrightarrow>
   generate env output verbose (map fst entries) fs = (None, written output entries fs)"
proof (induction entries arbitrary: fs)
  case Nil
  then show ?case by (simp add: written_def)
next
  case (Cons entry entries)
  obtain name rows where e: "entry = (name, rows)" by (cases entry)
  with Cons.prems have l: "map_of LAYOUTS name = Some rows"
    and o: "open_ok env (layout_path output name)"
    and w: "fits env (layout_path output name) (file_bytes (compute_distance_matrix rows))"
    and r: "list_all (\<lambda>(name, rows). map_of LAYOUTS name = Some rows
       \<and> open_ok env (layout_path output name)
       \<and> fits env (layout_path output name) (file_bytes (compute_distance_matrix rows))) entries"
    by simp_all
  let ?fs = "fs(layout_path output name \<mapsto> file_bytes (compute_distance_matrix rows))"
  from o w Cons.prems(1)
  have "write_layout_file env (layout_path output name) rows fs = (None, ?fs)"
    by (simp add: write_layout_file_result fits_accepted print_out_def)
  moreover from Cons.IH [OF Cons.prems(1) r]
  have "generate env output verbose (map fst entries) ?fs = (None, written output entries ?fs)" .
  ultimately show ?case using e l Cons.prems(1)
    by (cases verbose) (simp_all add: written_def print_out_def print_adjacency_info_def)
qed

lemma choices_eq: "choices = [''qwerty'', ''azerty'', ''qwertz'', ''dvorak'', ''colemak'', ''all'']"
  by (simp add: choices_def LAYOUTS_def)

lemma selected_names:
  assumes "layout \<in> set choices"
  shows "map fst (selected layout) = (if layout = ''all'' then map fst LAYOUTS else [layout])"
  using assms by (auto simp: choices_eq selected_def LAYOUTS_def)

lemma selected_entries:
  assumes "layout \<in> set choices"
  shows "list_all (\<lambda>(name, rows). map_of LAYOUTS name = Some rows) (selected layout)"
  using assms by (auto simp: choices_eq selected_def LAYOUTS_def)

lemma requested_choice:
  assumes "\<not> list_ex (\<lambda>v. v \<notin> set choices) layout_args"
  shows "requested layout_args \<in> set choices"
proof (cases "layout_args = []")
  case True
  then show ?thesis by (simp add: requested_def choices_eq)
next
  case False
  then have "last layout_args \<in> set layout_args" by simp
  with assms False show ?thesis
    by (auto simp: requested_def list_ex_iff)
qed

lemma main_exits:
  "list_ex (\<lambda>v. v \<notin> set choices) layout_args \<Longrightarrow>
   main env layout_args output verbose fs = (Some (SystemExit 2), fs)"
  by (simp add: main_def parse_layout_def)

lemma main_generates:
  assumes "\<not> list_ex (\<lambda>v. v \<notin> set choices) layout_args" and "makedirs_ok env output"
    and "stdout_ok env"
  shows "main env layout_args output verbose fs
    = (case generate env output verbose (map fst (selected (requested layout_args))) fs of
         (Some e, fs') \<Rightarrow> (Some e, fs')
       | (None, fs') \<Rightarrow> (None, fs'))"
proof -
  let ?names = "map fst (selected (requested layout_args))"
  have p: "parse_layout layout_args = Inr (requested layout_args)"
    using assms(1) by (simp add: parse_layout_def requested_def)
  have n: "(if requested layout_args = ''all'' then map fst LAYOUTS else [requested layout_args])
      = ?names"
    using selected_names [OF requested_choice [OF assms(1)]] by simp
  have o: "print_out env = None"
    using assms(3) by (simp add: print_out_def)
  have "main env layout_args output verbose fs
      = (case print_out env of
           Some e \<Rightarrow> (Some e, fs)
         | None \<Rightarrow>
             (case generate env output verbose
                (if requested layout_args = ''all'' then map fst LAYOUTS
                 else [requested layout_args]) fs of
                (Some e, fs') \<Rightarrow> (Some e, fs')
              | (None, fs') \<Rightarrow> (print_out env, fs')))"
    by (simp only: main_def p sum.case Let_def assms(2) not_True_eq_False if_False)
  then have "main env layout_args output verbose fs
      = (case print_out env of
           Some e \<Rightarrow> (Some e, fs)
         | None \<Rightarrow>
             (case generate env output verbose ?names fs of
                (Some e, fs') \<Rightarrow> (Some e, fs')
              | (None, fs') \<Rightarrow> (print_out env, fs')))"
    by (simp only: n)
  then show ?thesis
    by (simp add: o split: prod.splits option.splits)
qed

lemma main_succeeds:
  assumes "\<not> list_ex (\<lambda>v. v \<notin> set choices) layout_args" and "makedirs_ok env output"
    and "stdout_ok env"
    and "list_all (\<lambda>(name, rows). open_ok env (layout_path output name)
           \<and> fits env (layout_path output name) (file_bytes (compute_distance_matrix rows)))
         (selected (requested layout_args))"
  shows "main env layout_args output verbose fs
    = (None, written output (selected (requested layout_args)) fs)"
proof -
  have "list_all (\<lambda>(name, rows). map_of LAYOUTS name = Some rows
       \<and> open_ok env (layout_path output name)
       \<and> fits env (layout_path output name) (file_bytes (compute_distance_matrix rows)))
     (selected (requested layout_args))"
    using selected_entries [OF requested_choice [OF assms(1)]] assms(4)
    by (fastforce simp: list_all_iff)
  with assms(3) have "generate env output verbose (map fst (selected (requested layout_args))) fs
      = (None, written output (selected (requested layout_args)) fs)"
    by (rule generate_result)
  then show ?thesis
    using main_generates [OF assms(1,2,3), of verbose fs] by simp
qed

lemma qwerty_alone:
  "main env_ok [''qwerty''] ''out'' False no_files
     = (None, no_files(''out/keyboard_qwerty.bin'' \<mapsto> file_bytes (compute_distance_matrix QWERTY_ROWS)))"
proof -
  have s: "selected (requested [''qwerty'']) = [(''qwerty'', QWERTY_ROWS)]"
    by (simp add: selected_def requested_def LAYOUTS_def)
  have "main env_ok [''qwerty''] ''out'' False no_files
      = (None, written ''out'' (selected (requested [''qwerty''])) no_files)"
    by (rule main_succeeds) (simp_all add: s choices_eq env_ok_def fits_def)
  then show ?thesis
    by (simp add: s written_def layout_path_def path_join_def)
qed

text \<open>
  Claim C8 as stated fails: a command line that names the valid layout qwerty and the
  unknown layout workman is rejected as a whole with exit status 2 and no file is
  written for qwerty, which the command line naming qwerty alone does write.
\<close>

theorem main_unknown_layout_counterexample:
  "main env_ok [''qwerty'', ''workman''] ''out'' False no_files = (Some (SystemExit 2), no_files)
   \<and> no_files (layout_path ''out'' ''qwerty'') = None
   \<and> main env_ok [''qwerty''] ''out'' False no_files
       = (None, no_files(''out/keyboard_qwerty.bin'' \<mapsto> file_bytes (compute_distance_matrix QWERTY_ROWS)))
   \<and> layout_path ''out'' ''qwerty'' = ''out/keyboard_qwerty.bin''"
proof -
  have "main env_ok [''qwerty'', ''workman''] ''out'' False no_files = (Some (SystemExit 2), no_files)"
    by (rule main_exits) (simp add: choices_eq)
  moreover have "no_files (layout_path ''out'' ''qwerty'') = None"
    by (simp add: no_files_def)
  moreover have "layout_path ''out'' ''qwerty'' = ''out/keyboard_qwerty.bin''"
    by (simp add: layout_path_def path_join_def)
  ultimately show ?thesis
    using qwerty_alone by blast
qed

text \<open>
  Claim C8, amended. The layout names accepted on the command line are the five
  registered names and \<open>all\<close>. A command line on which some layout name is not one of
  them is rejected by argument parsing with exit status 2 and the file system is
  unchanged, whatever other names it carries.
\<close>

theorem main_rejects_unknown:
  "set choices = {''qwerty'', ''azerty'', ''qwertz'', ''dvorak'', ''colemak'', ''all''}
   \<and> ((\<exists>v \<in> set layout_args. v \<notin> set choices) \<longrightarrow>
        main env layout_args output verbose fs = (Some (SystemExit 2), fs))"
proof -
  have "set choices = {''qwerty'', ''azerty'', ''qwertz'', ''dvorak'', ''colemak'', ''all''}"
    by (simp add: choices_eq)
  moreover have "(\<exists>v \<in> set layout_args. v \<notin> set choices) \<longrightarrow>
        main env layout_args output verbose fs = (Some (SystemExit 2), fs)"
    using main_exits [of layout_args env "output" verbose fs] by (simp add: list_ex_iff)
  ultimately show ?thesis by blast
qed

theorem main_rejects_unknown_witness:
  "(\<exists>v \<in> set [''dvorak'', ''workman'', ''colemak'']. v \<notin> set choices)
   \<and> main env_ok [''dvorak'', ''workman'', ''colemak''] ''layouts'' True no_files
       = (Some (SystemExit 2), no_files)"
proof -
  have "''workman'' \<notin> set choices"
    by (simp add: choices_eq)
  then have u: "\<exists>v \<in> set [''dvorak'', ''workman'', ''colemak'']. v \<notin> set choices"
    by simp
  with main_rejects_unknown [of "[''dvorak'', ''workman'', ''colemak'']" env_ok "''layouts''" True no_files]
  have "main env_ok [''dvorak'', ''workman'', ''colemak''] ''layouts'' True no_files
       = (Some (SystemExit 2), no_files)"
    by blast
  with u show ?thesis by blast
qed

end
